theory Spec2Isabelle
  imports Complex_Main
begin

section \<open>JavaScript strings\<close>

text \<open>
  The plugin is TypeScript; its strings are sequences of code units.  They are modelled
  as \<^typ>\<open>string\<close>, a list of 8-bit characters, so the character classes below are
  JavaScript's classes restricted to the code units \<open>0x00\<close> .. \<open>0xFF\<close>.  Every string
  method used by the plugin is total on strings (\<open>slice\<close>, \<open>trim\<close>, \<open>replace\<close>,
  \<open>split\<close> never throw), and so are the functions here.
\<close>

definition code :: "char \<Rightarrow> nat" where
  "code c = of_char c"

text \<open>White space and line terminators: what \<open>\s\<close> and \<open>String.prototype.trim\<close> remove.\<close>

definition is_space :: "char \<Rightarrow> bool" where
  "is_space c = (code c = 9 \<or> code c = 10 \<or> code c = 11 \<or> code c = 12 \<or> code c = 13
                 \<or> code c = 32 \<or> code c = 160)"

definition is_line_terminator :: "char \<Rightarrow> bool" where
  "is_line_terminator c = (code c = 10 \<or> code c = 13)"

definition is_digit :: "char \<Rightarrow> bool" where
  "is_digit c = (48 \<le> code c \<and> code c \<le> 57)"

definition is_upper :: "char \<Rightarrow> bool" where
  "is_upper c = (65 \<le> code c \<and> code c \<le> 90)"

text \<open>The regular expression atom \<open>.\<close>: anything but a line terminator.\<close>

definition is_dot :: "char \<Rightarrow> bool" where
  "is_dot c = (\<not> is_line_terminator c)"

definition any_char :: "char \<Rightarrow> bool" where
  "any_char c = True"

text \<open>\<open>toLowerCase\<close> and \<open>toUpperCase\<close> on one code unit (ASCII and Latin-1 letters).\<close>

definition lower_char :: "char \<Rightarrow> char" where
  "lower_char c =
     (if (65 \<le> code c \<and> code c \<le> 90) \<or> (192 \<le> code c \<and> code c \<le> 222 \<and> code c \<noteq> 215)
      then char_of (code c + 32) else c)"

definition upper_char :: "char \<Rightarrow> char" where
  "upper_char c =
     (if (97 \<le> code c \<and> code c \<le> 122) \<or> (224 \<le> code c \<and> code c \<le> 254 \<and> code c \<noteq> 247)
      then char_of (code c - 32) else c)"

definition toLowerCase :: "string \<Rightarrow> string" where
  "toLowerCase s = map lower_char s"

definition js_trim :: "string \<Rightarrow> string" where
  "js_trim s = rev (dropWhile is_space (rev (dropWhile is_space s)))"

definition slice0 :: "nat \<Rightarrow> string \<Rightarrow> string" where
  \<comment> \<open>\<open>s.slice(0, n)\<close>\<close>
  "slice0 n s = take n s"

definition startsWith :: "string \<Rightarrow> string \<Rightarrow> bool" where
  "startsWith s p = (take (length p) s = p)"

text \<open>\<open>s.split(c)\<close> for a separator of one character; \<open>''''.split(c)\<close> is \<open>['''']\<close>.\<close>

fun js_split :: "char \<Rightarrow> string \<Rightarrow> string list" where
  "js_split c [] = [[]]"
| "js_split c (x # xs) =
     (if x = c then [] # js_split c xs
      else (case js_split c xs of
              [] \<Rightarrow> [[x]]
            | w # ws \<Rightarrow> (x # w) # ws))"

text \<open>\<open>xs.join(sep)\<close>\<close>

fun js_join :: "string \<Rightarrow> string list \<Rightarrow> string" where
  "js_join sep [] = []"
| "js_join sep [w] = w"
| "js_join sep (w # ws) = w @ sep @ js_join sep ws"

section \<open>Regular expressions\<close>

text \<open>
  The fragment of JavaScript's regular expressions that the plugin's literals use:
  literal text, a character class, a quantified class (greedy or lazy, with bounds),
  sequence, alternation and the assertions \<open>^\<close> and \<open>$\<close>.  Every quantifier in the source
  stands on a single character or class.
\<close>

datatype re =
    Lit string
  | Cls "char \<Rightarrow> bool"
  | Rep bool nat "nat option" "char \<Rightarrow> bool"
  | Bol
  | Eol
  | Seq re re
  | Alt re re

text \<open>
  The flags \<open>i\<close> and \<open>m\<close>.  Under \<open>i\<close> two characters match when their canonical
  (upper-case) forms agree.  The only literals with \<open>i\<close> are the two skip patterns,
  whose single quantified atom is the full stop, a character without case: classes are
  matched as they stand.
\<close>

record flags =
  ignoreCase :: bool
  multiline :: bool

definition canonicalize :: "flags \<Rightarrow> char \<Rightarrow> char" where
  "canonicalize fl c = (if ignoreCase fl then upper_char c else c)"

definition run :: "(char \<Rightarrow> bool) \<Rightarrow> string \<Rightarrow> nat" where
  "run p s = length (takeWhile p s)"

text \<open>
  \<open>ends fl s r i\<close> lists the indices at which a match of \<open>r\<close> that starts at index \<open>i\<close>
  of \<open>s\<close> can end, in the order in which the backtracking matcher tries them: a greedy
  quantifier tries the longest repetition first, a lazy one the shortest, an alternation
  its left branch first.
\<close>

fun ends :: "flags \<Rightarrow> string \<Rightarrow> re \<Rightarrow> nat \<Rightarrow> nat list" where
  "ends fl s (Lit w) i =
     (if i + length w \<le> length s
         \<and> map (canonicalize fl) (take (length w) (drop i s)) = map (canonicalize fl) w
      then [i + length w] else [])"
| "ends fl s (Cls p) i =
     (if i < length s \<and> p (s ! i) then [Suc i] else [])"
| "ends fl s (Rep greedy lo hi p) i =
     (let n = run p (drop i s);
          m = (case hi of None \<Rightarrow> n | Some h \<Rightarrow> min h n);
          cands = map (\<lambda>k. i + k) [lo..<Suc m]
      in if greedy then rev cands else cands)"
| "ends fl s Bol i =
     (if i = 0 \<or> (multiline fl \<and> i \<le> length s \<and> is_line_terminator (s ! (i - 1)))
      then [i] else [])"
| "ends fl s Eol i =
     (if i = length s \<or> (multiline fl \<and> i < length s \<and> is_line_terminator (s ! i))
      then [i] else [])"
| "ends fl s (Seq a b) i = concat (map (ends fl s b) (ends fl s a i))"
| "ends fl s (Alt a b) i = ends fl s a i @ ends fl s b i"

text \<open>The match the engine reports at a start index: the first one it finds.\<close>

definition match_at :: "flags \<Rightarrow> string \<Rightarrow> re \<Rightarrow> nat \<Rightarrow> nat option" where
  "match_at fl s r i = (case ends fl s r i of [] \<Rightarrow> None | e # _ \<Rightarrow> Some e)"

fun seq :: "re list \<Rightarrow> re" where
  "seq [] = Lit []"
| "seq [r] = r"
| "seq (r # rs) = Seq r (seq rs)"

fun alts :: "re list \<Rightarrow> re" where
  "alts [] = Cls (\<lambda>c. False)"
| "alts [r] = r"
| "alts (r # rs) = Alt r (alts rs)"

text \<open>\<open>re.test(s)\<close> for a literal without the \<open>g\<close> flag: is there a match at some index?\<close>

definition test :: "flags \<Rightarrow> re \<Rightarrow> string \<Rightarrow> bool" where
  "test fl r s = list_ex (\<lambda>i. match_at fl s r i \<noteq> None) [0..<Suc (length s)]"

text \<open>
  \<open>s.replace(re, rep)\<close> for a literal with the \<open>g\<close> flag and a replacement text without
  \<open>$\<close> patterns: the scan starts at index \<open>0\<close>, each match is replaced, the scan goes on
  at the end of the match (one character further after an empty match).
\<close>

function replace_from :: "flags \<Rightarrow> re \<Rightarrow> string \<Rightarrow> string \<Rightarrow> nat \<Rightarrow> string" where
  "replace_from fl r rep s i =
     (if length s < i then []
      else (case match_at fl s r i of
              None \<Rightarrow> (if i < length s then s ! i # replace_from fl r rep s (Suc i) else [])
            | Some e \<Rightarrow>
                (if e \<le> i
                 then rep @ (if i < length s then s ! i # replace_from fl r rep s (Suc i) else [])
                 else rep @ replace_from fl r rep s e)))"
  by pat_completeness auto
termination
  by (relation "measure (\<lambda>(fl, r, rep, s, i). Suc (length s) - i)") auto

declare replace_from.simps [simp del]

definition replace_all :: "flags \<Rightarrow> re \<Rightarrow> string \<Rightarrow> string \<Rightarrow> string" where
  "replace_all fl r rep s = replace_from fl r rep s 0"

text \<open>The same without the \<open>g\<close> flag: only the first match is replaced.\<close>

function replace_first_from :: "flags \<Rightarrow> re \<Rightarrow> string \<Rightarrow> string \<Rightarrow> nat \<Rightarrow> string" where
  "replace_first_from fl r rep s i =
     (if length s < i then []
      else (case match_at fl s r i of
              None \<Rightarrow> (if i < length s then s ! i # replace_first_from fl r rep s (Suc i) else [])
            | Some e \<Rightarrow> rep @ drop e s))"
  by pat_completeness auto
termination
  by (relation "measure (\<lambda>(fl, r, rep, s, i). Suc (length s) - i)") auto

declare replace_first_from.simps [simp del]

definition replace_first :: "flags \<Rightarrow> re \<Rightarrow> string \<Rightarrow> string \<Rightarrow> string" where
  "replace_first fl r rep s = replace_first_from fl r rep s 0"

text \<open>
  \<open>s.split(re)\<close>: \<open>p\<close> is the end of the last separator, \<open>q\<close> the index where the next
  separator is looked for; a separator that ends at \<open>p\<close> is skipped.
\<close>

function split_from :: "flags \<Rightarrow> re \<Rightarrow> string \<Rightarrow> nat \<Rightarrow> nat \<Rightarrow> string list" where
  "split_from fl r s p q =
     (if length s \<le> q then [drop p s]
      else (case match_at fl s r q of
              None \<Rightarrow> split_from fl r s p (Suc q)
            | Some e \<Rightarrow>
                (if min e (length s) = p
                 then split_from fl r s p (Suc q)
                 else take (q - p) (drop p s)
                      # split_from fl r s (min e (length s)) (min e (length s)))))"
  by pat_completeness auto

lemma ends_ge: "e \<in> set (ends fl s r i) \<Longrightarrow> i \<le> e"
proof (induction r arbitrary: i e)
  case (Rep g lo hi p)
  then show ?case by (auto simp: Let_def split: if_splits)
next
  case (Seq a b)
  then obtain j where "j \<in> set (ends fl s a i)" and "e \<in> set (ends fl s b j)"
    by auto
  with Seq.IH show ?case by force
qed (auto split: if_splits)

lemma match_at_ge: "match_at fl s r i = Some e \<Longrightarrow> i \<le> e"
  by (auto simp: match_at_def split: list.splits intro: ends_ge [of e fl s r i])

termination split_from
proof (relation "measures [\<lambda>(fl, r, s, p, q). length s - q,
                           \<lambda>(fl, r, s, p, q). if p = q then 0 else 1]", goal_cases)
  case 1
  show ?case by simp
next
  case (2 fl r s p q)
  then show ?case by auto
next
  case (3 fl r s p q e)
  then show ?case by auto
next
  case (4 fl r s p q e)
  then have "q \<le> e" by (simp add: match_at_ge)
  with 4 show ?case by (auto simp: min_def)
qed

declare split_from.simps [simp del]

definition js_split_re :: "flags \<Rightarrow> re \<Rightarrow> string \<Rightarrow> string list" where
  "js_split_re fl r s =
     (if s = [] then (if match_at fl s r 0 \<noteq> None then [] else [s])
      else split_from fl r s 0 0)"

definition no_flags :: flags where
  "no_flags = \<lparr>ignoreCase = False, multiline = False\<rparr>"

definition flag_i :: flags where
  "flag_i = \<lparr>ignoreCase = True, multiline = False\<rparr>"

definition flag_m :: flags where
  "flag_m = \<lparr>ignoreCase = False, multiline = True\<rparr>"


section \<open>The prompt cleaner and the skip patterns\<close>

definition newline :: char where
  "newline = CHR 0x0A"

text \<open>\<^verbatim>\<open>/\n?\[message_id:\s*[^\]]+\]/g\<close>\<close>

definition re_message_id :: re where
  "re_message_id =
     seq [Rep True 0 (Some 1) (\<lambda>c. c = newline), Lit ''[message_id:'',
          Rep True 0 None is_space, Rep True 1 None (\<lambda>c. c \<noteq> CHR '']''), Lit '']'']"

text \<open>\<^verbatim>\<open>/^\[(?:Mon|Tue|Wed|Thu|Fri|Sat|Sun)\s+\d{4}-\d{2}-\d{2}\s+\d{1,2}:\d{2}\s+[A-Z]+\]\s*/gm\<close>\<close>

definition re_timestamp :: re where
  "re_timestamp =
     seq [Bol, Lit ''['',
          alts (map Lit [''Mon'', ''Tue'', ''Wed'', ''Thu'', ''Fri'', ''Sat'', ''Sun'']),
          Rep True 1 None is_space,
          Rep True 4 (Some 4) is_digit, Lit ''-'', Rep True 2 (Some 2) is_digit, Lit ''-'',
          Rep True 2 (Some 2) is_digit,
          Rep True 1 None is_space,
          Rep True 1 (Some 2) is_digit, Lit '':'', Rep True 2 (Some 2) is_digit,
          Rep True 1 None is_space,
          Rep True 1 None is_upper, Lit '']'', Rep True 0 None is_space]"

text \<open>\<^verbatim>\<open>/^System:\s*\[.*?\].*$/gm\<close>\<close>

definition re_system_line :: re where
  "re_system_line =
     seq [Bol, Lit ''System:'', Rep True 0 None is_space, Lit ''['', Rep False 0 None is_dot,
          Lit '']'', Rep True 0 None is_dot, Eol]"

text \<open>\<^verbatim>\<open>/System:\s*\[[^\]]*\]\s*\{[\s\S]*?\n\}/g\<close>\<close>

definition re_system_json :: re where
  "re_system_json =
     seq [Lit ''System:'', Rep True 0 None is_space, Lit ''['',
          Rep True 0 None (\<lambda>c. c \<noteq> CHR '']''), Lit '']'', Rep True 0 None is_space,
          Lit ''{'', Rep False 0 None any_char, Lit [newline, CHR ''}'']]"

text \<open>\<^verbatim>\<open>/System:\s*\{[\s\S]*?\n\}/g\<close>\<close>

definition re_system_bare :: re where
  "re_system_bare =
     seq [Lit ''System:'', Rep True 0 None is_space, Lit ''{'', Rep False 0 None any_char,
          Lit [newline, CHR ''}'']]"

text \<open>
  The cleaning of the raw prompt, the same five replacements and the trim in both
  plugin variants (\<open>index.ts\<close> lines 149-163, the memory-tool variant lines 72-89).
\<close>

definition clean_prompt :: "string \<Rightarrow> string" where
  "clean_prompt rawPrompt =
     (let prompt = rawPrompt;
          prompt = replace_all no_flags re_message_id [] prompt;
          prompt = replace_all flag_m re_timestamp [] prompt;
          prompt = replace_all flag_m re_system_line [] prompt;
          prompt = replace_all no_flags re_system_json [] prompt;
          prompt = replace_all no_flags re_system_bare [] prompt
      in js_trim prompt)"

text \<open>
  \<^verbatim>\<open>/^(ok|okay|sure|thanks|thank you|yes|no|yep|nope|got it|sounds good)\.?$/i\<close> and
  \<^verbatim>\<open>/^(hi|hello|hey|morning|evening)\.?$/i\<close>
\<close>

definition ack_words :: "string list" where
  "ack_words = [''ok'', ''okay'', ''sure'', ''thanks'', ''thank you'', ''yes'', ''no'', ''yep'',
                ''nope'', ''got it'', ''sounds good'']"

definition greeting_words :: "string list" where
  "greeting_words = [''hi'', ''hello'', ''hey'', ''morning'', ''evening'']"

definition skip_pattern :: "string list \<Rightarrow> re" where
  "skip_pattern ws =
     Seq Bol (Seq (alts (map Lit ws)) (Seq (Rep True 0 (Some 1) (\<lambda>c. c = CHR ''.'')) Eol))"

definition skipPatterns :: "re list" where
  "skipPatterns = [skip_pattern ack_words, skip_pattern greeting_words]"

definition matches_skip :: "string \<Rightarrow> bool" where
  \<comment> \<open>\<open>skipPatterns.some((p) => p.test(prompt))\<close>\<close>
  "matches_skip prompt = list_ex (\<lambda>p. test flag_i p prompt) skipPatterns"


section \<open>The external collaborators\<close>

text \<open>
  What the plugin awaits from outside is a value of the environment: the reply of the
  Ollama endpoint to the extraction request for a query, the outcome of a child process
  (\<open>qmd search\<close>, \<open>head -c 500\<close>), the host's memory-search tool and the outcome of
  appending to the log file.  Numbers (\<open>parseFloat\<close>, \<open>toFixed(2)\<close>) are IEEE doubles in the
  source; the model keeps the number type \<open>'n\<close> abstract and takes both functions from
  the environment.
\<close>

datatype fetch_reply =
    FetchFailed               \<comment> \<open>\<open>fetch\<close> rejects\<close>
  | NotOk                     \<comment> \<open>\<open>res.ok\<close> is false\<close>
  | BadBody                   \<comment> \<open>\<open>res.json()\<close> rejects, or \<open>response\<close> is not a string\<close>
  | Body "string option"      \<comment> \<open>the body's \<open>response\<close> field, if it has one\<close>

datatype exec_result =
    ExecFailed                \<comment> \<open>the process fails, exits non-zero or times out\<close>
  | Stdout string

datatype create_reply = CreateThrows | CreateNull | Created

text \<open>
  A result of the memory tool: \<open>path\<close>, \<open>snippet\<close> and \<open>score\<close> (the optional \<open>from\<close>
  and \<open>to\<close> are never read).
\<close>

record 'n MemoryResult =
  m_path :: string
  snippet :: string
  m_score :: 'n

datatype 'n tool_reply =
    ExecuteThrows
  | NoText                    \<comment> \<open>no \<open>content[0]\<close>, or its type is not \<open>text\<close>\<close>
  | BadJson                   \<comment> \<open>\<open>JSON.parse\<close> throws\<close>
  | Parsed bool "'n MemoryResult list option"
      \<comment> \<open>the parsed text: whether \<open>disabled\<close> is set, and \<open>results\<close> if present\<close>

record 'n QmdResult =
  hash :: string
  score :: 'n
  path :: string

text \<open>
  A log entry (\<open>prompt\<close>, \<open>entities\<close>, \<open>searchQuery\<close>, \<open>results\<close>) without its
  wall-clock fields (\<open>ts\<close>, \<open>extractMs\<close>, \<open>searchMs\<close>, \<open>totalMs\<close>), which no function
  of the plugin reads.
\<close>

record 'n SearchLog =
  log_prompt :: string
  log_entities :: "string option"
  log_searchQuery :: string
  log_results :: "(string \<times> 'n) list"

record 'n env =
  ollama :: "string \<Rightarrow> fetch_reply"
  qmd :: "string \<Rightarrow> nat \<Rightarrow> exec_result"
  head_c :: "string \<Rightarrow> exec_result"
  createMemorySearchTool :: create_reply
  execute :: "string \<Rightarrow> string \<Rightarrow> nat \<Rightarrow> rat \<Rightarrow> 'n tool_reply"
  appendFile :: "'n SearchLog \<Rightarrow> bool"
  parseFloat :: "string \<Rightarrow> 'n"
  toFixed2 :: "'n \<Rightarrow> string"

text \<open>
  The state that outlives a turn: the lazily created tool handle (\<open>memoryTool\<close> is
  \<open>null\<close> or a tool) and the log file.
\<close>

record 'n state =
  memoryTool :: bool
  log_file :: "'n SearchLog list"

text \<open>The calls a turn makes, in order.\<close>

datatype 'n event =
    Extract string                    \<comment> \<open>\<open>extractEntities(prompt)\<close>\<close>
  | QmdSearch string nat              \<comment> \<open>\<open>searchWithQmd(searchQuery, 5)\<close>\<close>
  | Head string                       \<comment> \<open>\<open>getSnippet(path)\<close>\<close>
  | CreateTool                        \<comment> \<open>\<open>createMemorySearchTool(...)\<close>\<close>
  | Execute string string nat rat     \<comment> \<open>\<open>memoryTool.execute(id, {query, maxResults, minScore})\<close>\<close>
  | LogSearch "'n SearchLog"          \<comment> \<open>\<open>logSearch(entry)\<close>\<close>

text \<open>What the hook returns (\<open>None\<close> is \<open>undefined\<close>), the state it leaves and its calls.\<close>

record 'n outcome =
  returned :: "string option"
  state_after :: "'n state"
  calls :: "'n event list"

section \<open>The hybrid variant (\<open>index.ts\<close>)\<close>

text \<open>\<open>logSearch\<close>: the entry is appended; a failure is caught and only printed.\<close>

definition logSearch :: "'n env \<Rightarrow> 'n state \<Rightarrow> 'n SearchLog \<Rightarrow> 'n state" where
  "logSearch e st entry =
     (if appendFile e entry then st\<lparr>log_file := log_file st @ [entry]\<rparr> else st)"

text \<open>\<open>extractEntities\<close>, from the reply to its request.\<close>

definition extractEntities :: "fetch_reply \<Rightarrow> string option" where
  "extractEntities reply =
     (case reply of
        FetchFailed \<Rightarrow> None
      | NotOk \<Rightarrow> None
      | BadBody \<Rightarrow> None
      | Body None \<Rightarrow> None
      | Body (Some response) \<Rightarrow>
          (let entities = js_trim response
           in if entities \<noteq> [] \<and> 0 < length entities \<and> length entities < 300
              then Some entities else None))"

text \<open>\<^verbatim>\<open>/,/g\<close> and \<^verbatim>\<open>/\s+/g\<close>\<close>

definition re_comma :: re where
  "re_comma = Lit '',''"

definition re_spaces :: re where
  "re_spaces = Rep True 1 None is_space"

text \<open>Lines 203-205: the terms and the query made of the first three.\<close>

definition allTerms :: "string \<Rightarrow> string list" where
  "allTerms llmEntities =
     js_split CHR '' ''
       (js_trim (replace_all no_flags re_spaces '' ''
          (replace_all no_flags re_comma '' '' (toLowerCase llmEntities))))"

definition searchQuery :: "string \<Rightarrow> string" where
  "searchQuery llmEntities = js_join '' '' (take 3 (allTerms llmEntities))"

text \<open>\<^verbatim>\<open>/^qmd:\/\/memory\//\<close>\<close>

definition re_qmd_uri :: re where
  "re_qmd_uri = Seq Bol (Lit ''qmd://memory/'')"

text \<open>
  \<open>searchWithQmd\<close>: the loop over the lines of the trimmed output, pushing one result
  for each line of three or more fields.
\<close>

definition parse_line :: "(string \<Rightarrow> 'n) \<Rightarrow> string list \<Rightarrow> 'n QmdResult" where
  "parse_line pf parts =
     (let qmdPath = js_join '','' (drop 2 parts);
          relativePath = replace_first no_flags re_qmd_uri ''memory/'' qmdPath
      in \<lparr>hash = parts ! 0, score = pf (parts ! 1), path = relativePath\<rparr>)"

fun parse_lines :: "(string \<Rightarrow> 'n) \<Rightarrow> string list \<Rightarrow> 'n QmdResult list \<Rightarrow> 'n QmdResult list" where
  "parse_lines pf [] results = results"
| "parse_lines pf (line # rest) results =
     (let parts = js_split CHR '','' line
      in if 3 \<le> length parts
         then parse_lines pf rest (results @ [parse_line pf parts])
         else parse_lines pf rest results)"

definition searchWithQmd :: "(string \<Rightarrow> 'n) \<Rightarrow> exec_result \<Rightarrow> 'n QmdResult list" where
  "searchWithQmd pf out =
     (case out of
        ExecFailed \<Rightarrow> []
      | Stdout stdout \<Rightarrow>
          (if js_trim stdout = [] then []
           else parse_lines pf (js_split newline (js_trim stdout)) []))"

text \<open>\<^verbatim>\<open>/^#.*\n/\<close>\<close>

definition re_heading :: re where
  "re_heading = seq [Bol, Lit ''#'', Rep True 0 None is_dot, Lit [newline]]"

text \<open>\<open>getSnippet\<close>, from the outcome of \<open>head -c 500\<close> on the file.\<close>

definition getSnippet :: "exec_result \<Rightarrow> nat \<Rightarrow> string" where
  "getSnippet out maxChars =
     (case out of
        ExecFailed \<Rightarrow> []
      | Stdout stdout \<Rightarrow>
          (let cleaned = js_trim (replace_all no_flags re_spaces '' ''
                                   (replace_first no_flags re_heading [] stdout))
           in slice0 maxChars cleaned))"


text \<open>The texts of the injected context.\<close>

definition quote :: char where
  "quote = CHR 0x22"

definition backtick :: char where
  "backtick = CHR 0x60"

definition warning_sign :: string where
  \<comment> \<open>the warning emoji (U+26A0 U+FE0F), written as its UTF-8 bytes\<close>
  "warning_sign = [CHR 0xE2, CHR 0x9A, CHR 0xA0, CHR 0xEF, CHR 0xB8, CHR 0x8F]"

definition disabled_hint :: string where
  "disabled_hint =
     ''<memory-hints>'' @ [newline]
     @ warning_sign @ '' Local LLM (Ollama) not running. Memory search disabled.'' @ [newline]
     @ ''Run '' @ [backtick] @ ''ollama serve'' @ [backtick]
     @ '' and ensure gemma3:4b is available.'' @ [newline]
     @ ''</memory-hints>''"

definition hint_line :: "string \<Rightarrow> string \<Rightarrow> string \<Rightarrow> string" where
  \<comment> \<open>\<^verbatim>\<open>- ${path} (${score.toFixed(2)}): "${preview}..."\<close>\<close>
  "hint_line p sc preview =
     ''- '' @ p @ '' ('' @ sc @ ''): '' @ [quote] @ preview @ ''...'' @ [quote]"

definition hint_block :: "string list \<Rightarrow> string" where
  "hint_block hints =
     ''<memory-hints>'' @ [newline]
     @ ''Possibly relevant (read if needed):'' @ [newline]
     @ js_join [newline] hints @ [newline]
     @ ''</memory-hints>''"

definition nothing :: "'n state \<Rightarrow> 'n event list \<Rightarrow> 'n outcome" where
  \<comment> \<open>a bare \<open>return\<close>\<close>
  "nothing st evs = \<lparr>returned = None, state_after = st, calls = evs\<rparr>"

definition minScore :: rat where
  "minScore = 3 / 10"

text \<open>\<^verbatim>\<open>/^.*\.openclaw\/workspace\//\<close>\<close>

definition re_workspace :: re where
  "re_workspace = seq [Bol, Rep True 0 None is_dot, Lit ''.openclaw/workspace/'']"

definition relative_path :: "string \<Rightarrow> string" where
  "relative_path p = replace_first no_flags re_workspace [] p"

text \<open>
  Lines 239-311: the semantic fallback, run when the keyword search found nothing.  Any
  exception inside it is caught and the hook returns \<open>undefined\<close>.
\<close>

definition gemini_fallback ::
  "'n env \<Rightarrow> 'n state \<Rightarrow> string \<Rightarrow> string \<Rightarrow> string \<Rightarrow> 'n outcome" where
  "gemini_fallback e st prompt llmEntities query =
     (if \<not> memoryTool st \<and> createMemorySearchTool e = CreateThrows
      then nothing st [CreateTool]
      else
        let st1 = (if memoryTool st then st
                   else st\<lparr>memoryTool := (createMemorySearchTool e = Created)\<rparr>);
            ev1 = (if memoryTool st then [] else [CreateTool])
        in if \<not> memoryTool st1 then nothing st1 ev1
           else
             let q = slice0 200 prompt;
                 ev2 = ev1 @ [Execute ''preflight-fallback'' q 5 minScore]
             in (case execute e ''preflight-fallback'' q 5 minScore of
                   ExecuteThrows \<Rightarrow> nothing st1 ev2
                 | NoText \<Rightarrow> nothing st1 ev2
                 | BadJson \<Rightarrow> nothing st1 ev2
                 | Parsed disabled res \<Rightarrow>
                     (case res of
                        None \<Rightarrow> nothing st1 ev2
                      | Some rs \<Rightarrow>
                          if disabled \<or> rs = [] then nothing st1 ev2
                          else
                            let geminiHints =
                                  map (\<lambda>r. hint_line (relative_path (m_path r))
                                              (toFixed2 e (m_score r))
                                              (slice0 80 (js_trim
                                                 (replace_all no_flags re_spaces '' '' (snippet r)))))
                                      rs;
                                entry = \<lparr>log_prompt = slice0 200 prompt,
                                         log_entities = Some llmEntities,
                                         log_searchQuery = query @ '' [GEMINI FALLBACK]'',
                                         log_results =
                                           map (\<lambda>r. (relative_path (m_path r), m_score r)) rs\<rparr>
                            in \<lparr>returned = Some (hint_block geminiHints),
                                state_after = logSearch e st1 entry,
                                calls = ev2 @ [LogSearch entry]\<rparr>)))"

text \<open>
  Lines 214-334: the keyword search, its log entry, and either the fallback or the
  hints with a preview for each result.
\<close>

definition search_stage ::
  "'n env \<Rightarrow> 'n state \<Rightarrow> string \<Rightarrow> string \<Rightarrow> string \<Rightarrow> 'n outcome" where
  "search_stage e st prompt llmEntities query =
     (let results = searchWithQmd (parseFloat e) (qmd e query 5);
          entry = \<lparr>log_prompt = slice0 200 prompt,
                   log_entities = Some llmEntities,
                   log_searchQuery = query,
                   log_results = map (\<lambda>r. (path r, score r)) results\<rparr>;
          st1 = logSearch e st entry;
          ev1 = [QmdSearch query 5, LogSearch entry]
      in if results = []
         then
           (let fb = gemini_fallback e st1 prompt llmEntities query
            in fb\<lparr>calls := ev1 @ calls fb\<rparr>)
         else
           \<lparr>returned =
              Some (hint_block
                (map (\<lambda>r. hint_line (path r) (toFixed2 e (score r))
                            (getSnippet (head_c e (path r)) 100))
                     results)),
            state_after = st1,
            calls = ev1 @ map (\<lambda>r. Head (path r)) results\<rparr>)"

text \<open>The \<open>before_agent_start\<close> hook of \<open>index.ts\<close> (lines 136-335).\<close>

definition before_agent_start :: "'n env \<Rightarrow> 'n state \<Rightarrow> string option \<Rightarrow> 'n outcome" where
  "before_agent_start e st event_prompt =
     (case event_prompt of
        None \<Rightarrow> nothing st []
      | Some rawPrompt \<Rightarrow>
          if rawPrompt = [] \<or> length rawPrompt < 10 then nothing st []
          else
            let prompt = clean_prompt rawPrompt
            in if length prompt < 3 then nothing st []
               else if startsWith prompt ''/'' then nothing st []
               else if matches_skip prompt then nothing st []
               else
                 (case extractEntities (ollama e prompt) of
                    None \<Rightarrow>
                      \<lparr>returned = Some disabled_hint, state_after = st, calls = [Extract prompt]\<rparr>
                  | Some llmEntities \<Rightarrow>
                      if llmEntities = []
                      then \<lparr>returned = Some disabled_hint, state_after = st,
                            calls = [Extract prompt]\<rparr>
                      else
                        let query = searchQuery llmEntities
                        in if length query < 2 then nothing st [Extract prompt]
                           else
                             (let found = search_stage e st prompt llmEntities query
                              in found\<lparr>calls := Extract prompt # calls found\<rparr>)))"

section \<open>The memory-tool variant\<close>

text \<open>
  The second plugin file: the same cleaner and skip patterns, \<open>extractEntities\<close> with a
  bound of 200, a stop-word fallback for the query and the host's memory-search tool as
  its only search backend.  It writes no log.
\<close>

definition extractEntities_mt :: "fetch_reply \<Rightarrow> string option" where
  "extractEntities_mt reply =
     (case reply of
        FetchFailed \<Rightarrow> None
      | NotOk \<Rightarrow> None
      | BadBody \<Rightarrow> None
      | Body None \<Rightarrow> None
      | Body (Some response) \<Rightarrow>
          (let entities = js_trim response
           in if entities \<noteq> [] \<and> 0 < length entities \<and> length entities < 200
              then Some entities else None))"

definition stopWords :: "string list" where
  "stopWords =
     [''what'', ''who'', ''where'', ''when'', ''why'', ''how'', ''which'',
      ''is'', ''are'', ''was'', ''were'', ''be'', ''been'', ''being'',
      ''the'', ''a'', ''an'', ''this'', ''that'', ''these'', ''those'',
      ''i'', ''you'', ''he'', ''she'', ''it'', ''we'', ''they'', ''me'', ''him'', ''her'', ''us'',
      ''them'', ''my'', ''your'', ''his'', ''its'', ''our'', ''their'',
      ''do'', ''does'', ''did'', ''have'', ''has'', ''had'', ''can'', ''could'', ''will'',
      ''would'', ''should'',
      ''about'', ''with'', ''from'', ''into'', ''of'', ''for'', ''on'', ''at'', ''to'', ''by'',
      ''and'', ''or'', ''but'', ''if'', ''then'', ''so'', ''because'',
      ''tell'', ''know'', ''think'', ''see'', ''say'', ''talk'', ''look'', ''find'', ''get'',
      ''give'',
      ''just'', ''also'', ''very'', ''really'', ''now'', ''here'', ''there'',
      ''hints'', ''hint'', ''seeing'', ''showing'', ''show'', ''recall'', ''remember'',
      ''remembered'', ''memory'', ''memories'', ''file'', ''files'', ''context'', ''relevant'',
      ''related'']"

text \<open>\<^verbatim>\<open>/[?.,!]/g\<close>\<close>

definition re_punct :: re where
  "re_punct = Cls (\<lambda>c. c = CHR ''?'' \<or> c = CHR ''.'' \<or> c = CHR '','' \<or> c = CHR ''!'')"

definition stopword_query :: "string \<Rightarrow> string" where
  "stopword_query prompt =
     js_join '' ''
       (filter (\<lambda>w. 1 < length w \<and> \<not> List.member stopWords (replace_all no_flags re_punct [] w))
          (js_split_re no_flags re_spaces (toLowerCase prompt)))"

text \<open>Lines 92-131: the query, from the extractor's answer or from the stop-word filter.\<close>

definition searchQuery_mt :: "string option \<Rightarrow> string \<Rightarrow> string" where
  "searchQuery_mt llmEntities prompt =
     (case llmEntities of
        None \<Rightarrow> stopword_query prompt
      | Some ents \<Rightarrow>
          if ents = [] then stopword_query prompt
          else replace_all no_flags re_comma '' '' (toLowerCase ents))"

text \<open>The \<open>before_agent_start\<close> hook of the memory-tool variant (lines 57-238).\<close>

definition before_agent_start_mt :: "'n env \<Rightarrow> 'n state \<Rightarrow> string option \<Rightarrow> 'n outcome" where
  "before_agent_start_mt e st event_prompt =
     (case event_prompt of
        None \<Rightarrow> nothing st []
      | Some rawPrompt \<Rightarrow>
          if rawPrompt = [] \<or> length rawPrompt < 10 then nothing st []
          else
            let prompt = clean_prompt rawPrompt;
                llmEntities = extractEntities_mt (ollama e prompt);
                query = searchQuery_mt llmEntities prompt;
                ev0 = [Extract prompt]
            in if length prompt < 3 then nothing st ev0
               else if startsWith prompt ''/'' then nothing st ev0
               else if matches_skip prompt then nothing st ev0
               else if \<not> memoryTool st \<and> createMemorySearchTool e = CreateThrows
               then nothing st (ev0 @ [CreateTool])
               else
                 let st1 = (if memoryTool st then st
                            else st\<lparr>memoryTool := (createMemorySearchTool e = Created)\<rparr>);
                     ev1 = (if memoryTool st then ev0 else ev0 @ [CreateTool])
                 in if \<not> memoryTool st1 then nothing st1 ev1
                    else if length query < 3 then nothing st1 ev1
                    else
                      let ev2 = ev1 @ [Execute ''preflight'' query 5 minScore]
                      in (case execute e ''preflight'' query 5 minScore of
                            ExecuteThrows \<Rightarrow> nothing st1 ev2
                          | NoText \<Rightarrow> nothing st1 ev2
                          | BadJson \<Rightarrow> nothing st1 ev2
                          | Parsed disabled res \<Rightarrow>
                              (case res of
                                 None \<Rightarrow> nothing st1 ev2
                               | Some results \<Rightarrow>
                                   if disabled \<or> results = [] then nothing st1 ev2
                                   else
                                     \<lparr>returned =
                                        Some (hint_block
                                          (map (\<lambda>r. hint_line (relative_path (m_path r))
                                                      (toFixed2 e (m_score r))
                                                      (js_trim (slice0 80 (js_trim
                                                         (replace_all no_flags re_spaces '' ''
                                                            (snippet r))))))
                                               results)),
                                      state_after = st1,
                                      calls = ev2\<rparr>)))"


section \<open>Observations on a turn\<close>

text \<open>
  The checks a prompt has to pass before anything is searched, as both hooks write them:
  a raw text of 10 characters or more, a cleaned text of 3 or more that does not start
  with a slash and matches no skip pattern.
\<close>

definition passes_checks :: "string option \<Rightarrow> bool" where
  "passes_checks event_prompt =
     (case event_prompt of
        None \<Rightarrow> False
      | Some rawPrompt \<Rightarrow>
          rawPrompt \<noteq> [] \<and> 10 \<le> length rawPrompt
          \<and> 3 \<le> length (clean_prompt rawPrompt)
          \<and> \<not> startsWith (clean_prompt rawPrompt) ''/''
          \<and> \<not> matches_skip (clean_prompt rawPrompt))"


fun is_qmd :: "'n event \<Rightarrow> bool" where
  "is_qmd (QmdSearch q n) = True"
| "is_qmd ev = False"

fun is_execute :: "'n event \<Rightarrow> bool" where
  "is_execute (Execute i q n m) = True"
| "is_execute ev = False"

fun is_log :: "'n event \<Rightarrow> bool" where
  "is_log (LogSearch entry) = True"
| "is_log ev = False"

text \<open>
  A concrete environment for the examples: numbers are kept as their decimal text,
  Ollama answers \<open>Toronto, trip\<close>, the keyword index has one file, the memory tool
  returns one result and the log file can be written.
\<close>

definition demo_env :: "string env" where
  "demo_env =
     \<lparr>ollama = (\<lambda>query. Body (Some ''Toronto, trip'')),
      qmd = (\<lambda>query n. Stdout ''#a1,0.92,qmd://memory/notes/trip.md''),
      head_c = (\<lambda>p. Stdout (''# Trip'' @ [newline] @ ''Flights   booked'')),
      createMemorySearchTool = Created,
      execute = (\<lambda>i query n m.
         Parsed False (Some [\<lparr>m_path = ''/home/u/.openclaw/workspace/memory/a.md'',
                                snippet = ''Toronto  in May'', m_score = ''0.50''\<rparr>])),
      appendFile = (\<lambda>entry. True),
      parseFloat = (\<lambda>field. field),
      toFixed2 = (\<lambda>n. n)\<rparr>"

definition demo_state :: "string state" where
  "demo_state = \<lparr>memoryTool = False, log_file = []\<rparr>"



section \<open>Properties\<close>

subsection \<open>The matcher\<close>



lemma ends_alts:
  "rs \<noteq> [] \<Longrightarrow> set (ends fl s (alts rs) i) = (\<Union>r\<in>set rs. set (ends fl s r i))"
  by (induction rs rule: alts.induct) auto

lemma ends_Lit_variant:
  assumes "map (canonicalize fl) v = map (canonicalize fl) w"
  shows "ends fl (v @ rest) (Lit w) 0 = [length w]"
proof -
  from assms have "length v = length w"
    by (rule map_eq_imp_length_eq)
  with assms show ?thesis by simp
qed

lemma skip_pattern_variant:
  assumes w: "w \<in> set ws"
    and v: "map upper_char v = map upper_char w"
    and t: "rest = [] \<or> rest = ''.''"
  shows "test flag_i (skip_pattern ws) (v @ rest)"
proof -
  let ?s = "v @ rest"
  have len: "length v = length w"
    using v by (rule map_eq_imp_length_eq)
  have "canonicalize flag_i = upper_char"
    by (rule ext) (simp add: canonicalize_def flag_i_def)
  with v have "map (canonicalize flag_i) v = map (canonicalize flag_i) w"
    by simp
  then have "ends flag_i ?s (Lit w) 0 = [length w]"
    by (rule ends_Lit_variant)
  then have lit: "length v \<in> set (ends flag_i ?s (Lit w) 0)"
    by (simp del: ends.simps add: len)
  from w have "map Lit ws \<noteq> []"
    by auto
  then have "set (ends flag_i ?s (alts (map Lit ws)) 0)
               = (\<Union>r\<in>set (map Lit ws). set (ends flag_i ?s r 0))"
    by (rule ends_alts)
  moreover from w have "Lit w \<in> set (map Lit ws)"
    by simp
  ultimately have word: "length v \<in> set (ends flag_i ?s (alts (map Lit ws)) 0)"
    using lit by blast
  have tail: "length ?s \<in> set (ends flag_i ?s (Seq (Rep True 0 (Some 1) (\<lambda>c. c = CHR ''.'')) Eol) (length v))"
    using t by (auto simp: run_def Let_def)
  have "ends flag_i ?s Bol 0 = [0]"
    by simp
  with word tail have "length ?s \<in> set (ends flag_i ?s (skip_pattern ws) 0)"
    unfolding skip_pattern_def ends.simps(6) by (simp del: ends.simps) blast
  then have "match_at flag_i ?s (skip_pattern ws) 0 \<noteq> None"
    by (auto simp: match_at_def split: list.splits)
  then show ?thesis
    unfolding test_def list_ex_iff by (intro bexI [of _ 0]) simp_all
qed

lemma matches_skip_variant:
  assumes "w \<in> set (ack_words @ greeting_words)"
    and "map upper_char v = map upper_char w"
    and "rest = [] \<or> rest = ''.''"
  shows "matches_skip (v @ rest)"
  using assms skip_pattern_variant [of w ack_words v rest]
    skip_pattern_variant [of w greeting_words v rest]
  by (auto simp: matches_skip_def skipPatterns_def)



subsection \<open>Characters and terms of the results\<close>

lemma replace_from_chars:
  "set (replace_from fl r rep s i) \<subseteq> set (drop i s) \<union> set rep"
proof (induction fl r rep s i rule: replace_from.induct)
  case (1 fl r rep s i)
  show ?case
  proof (cases "length s < i")
    case True
    then show ?thesis by (simp add: replace_from.simps)
  next
    case False
    note in_range = this
    show ?thesis
    proof (cases "match_at fl s r i")
      case None
      show ?thesis
      proof (cases "i < length s")
        case True
        with in_range None 1(1) have "set (replace_from fl r rep s (Suc i)) \<subseteq> set (drop (Suc i) s) \<union> set rep"
          by simp
        moreover have "drop i s = s ! i # drop (Suc i) s"
          using True by (simp add: Cons_nth_drop_Suc)
        ultimately show ?thesis
          using True in_range None by (subst replace_from.simps) auto
      next
        case False
        with in_range None show ?thesis by (subst replace_from.simps) simp
      qed
    next
      case (Some e)
      show ?thesis
      proof (cases "e \<le> i")
        case True
        note empty = this
        show ?thesis
        proof (cases "i < length s")
          case True
          with in_range Some empty 1(2) have "set (replace_from fl r rep s (Suc i)) \<subseteq> set (drop (Suc i) s) \<union> set rep"
            by simp
          moreover have "drop i s = s ! i # drop (Suc i) s"
            using True by (simp add: Cons_nth_drop_Suc)
          ultimately show ?thesis
            using True in_range Some empty by (subst replace_from.simps) auto
        next
          case False
          with in_range Some empty show ?thesis by (subst replace_from.simps) simp
        qed
      next
        case False
        with in_range Some 1(3) have "set (replace_from fl r rep s e) \<subseteq> set (drop e s) \<union> set rep"
          by simp
        moreover from False have "set (drop e s) \<subseteq> set (drop i s)"
          by (simp add: set_drop_subset_set_drop)
        ultimately show ?thesis
          using in_range Some False by (subst replace_from.simps) auto
      qed
    qed
  qed
qed

lemma replace_all_chars: "set (replace_all fl r rep s) \<subseteq> set s \<union> set rep"
  using replace_from_chars [of fl r rep s 0] by (simp add: replace_all_def)

lemma match_at_comma:
  "match_at no_flags s re_comma i = (if i < length s \<and> s ! i = CHR '','' then Some (Suc i) else None)"
  by (auto simp: match_at_def re_comma_def canonicalize_def no_flags_def take_Suc_conv_app_nth)


lemma replace_from_comma_free: "CHR '','' \<notin> set (replace_from no_flags re_comma '' '' s i)"
proof (induction no_flags re_comma "'' ''" s i rule: replace_from.induct)
  case (1 s i)
  show ?case
  proof (cases "i < length s")
    case False
    then show ?thesis
      by (subst replace_from.simps) (simp add: match_at_comma)
  next
    case True
    show ?thesis
    proof (cases "s ! i = CHR '',''")
      case True
      with \<open>i < length s\<close> 1(3) [of "Suc i"] show ?thesis
        by (subst replace_from.simps) (simp add: match_at_comma)
    next
      case False
      with \<open>i < length s\<close> 1(1) show ?thesis
        by (subst replace_from.simps) (simp add: match_at_comma)
    qed
  qed
qed


lemma js_trim_chars: "set (js_trim s) \<subseteq> set s"
proof -
  have "set (dropWhile is_space (rev (dropWhile is_space s))) \<subseteq> set (rev (dropWhile is_space s))"
    by (rule set_dropWhileD [THEN subsetI])
  also have "\<dots> \<subseteq> set s"
    by (auto dest: set_dropWhileD)
  finally show ?thesis by (simp add: js_trim_def)
qed

lemma js_split_not_Nil: "js_split c s \<noteq> []"
  by (induction s) (auto split: list.splits)

lemma js_split_chars: "w \<in> set (js_split c s) \<Longrightarrow> set w \<subseteq> set s \<and> c \<notin> set w"
proof (induction s arbitrary: w)
  case Nil
  then show ?case by simp
next
  case (Cons x xs)
  show ?case
  proof (cases "x = c")
    case True
    with Cons show ?thesis by auto
  next
    case False
    obtain u us where u: "js_split c xs = u # us"
      using js_split_not_Nil [of c xs] by (cases "js_split c xs") auto
    with False Cons.prems have "w = x # u \<or> w \<in> set us"
      by simp
    with u False Cons.IH [of u] Cons.IH [of w] show ?thesis
      by auto
  qed
qed

lemma js_join_chars: "set (js_join sep ws) \<subseteq> set sep \<union> \<Union> (set ` set ws)"
  by (induction sep ws rule: js_join.induct) auto

lemma js_split_no_sep: "c \<notin> set w \<Longrightarrow> js_split c w = [w]"
  by (induction w) auto

lemma js_split_append:
  "c \<notin> set w \<Longrightarrow> js_split c (w @ c # rest) = w # js_split c rest"
  by (induction w) (auto split: list.splits)

lemma js_split_join:
  "ws \<noteq> [] \<Longrightarrow> (\<And>w. w \<in> set ws \<Longrightarrow> c \<notin> set w) \<Longrightarrow> js_split c (js_join [c] ws) = ws"
proof (induction "[c]" ws rule: js_join.induct)
  case 1
  then show ?case by simp
next
  case (2 w)
  then show ?case by (simp add: js_split_no_sep)
next
  case (3 w v vs)
  then show ?case by (simp add: js_split_append del: js_split.simps)
qed

lemma lower_char_idem: "lower_char (lower_char c) = lower_char c"
proof -
  have "code (char_of (code c + 32)) = code c + 32" if "code c \<le> 222"
    using that by (simp add: code_def)
  then show ?thesis
    by (auto simp: lower_char_def)
qed

lemma searchQuery_terms: "length (js_split CHR '' '' (searchQuery ents)) \<le> 3"
proof -
  let ?ws = "take 3 (allTerms ents)"
  have "allTerms ents \<noteq> []"
    by (simp add: allTerms_def js_split_not_Nil)
  then have ne: "?ws \<noteq> []" by simp
  have "CHR '' '' \<notin> set w" if "w \<in> set ?ws" for w
  proof -
    from that have "w \<in> set (allTerms ents)" by (rule in_set_takeD)
    then show ?thesis
      unfolding allTerms_def by (auto dest: js_split_chars)
  qed
  with ne have "js_split CHR '' '' (js_join '' '' ?ws) = ?ws"
    by (rule js_split_join)
  then show ?thesis by (simp add: searchQuery_def)
qed

lemma searchQuery_chars:
  "c \<in> set (searchQuery ents) \<Longrightarrow> c \<noteq> CHR '','' \<and> lower_char c = c"
proof -
  let ?low = "toLowerCase ents"
  let ?nc = "replace_all no_flags re_comma '' '' ?low"
  let ?col = "replace_all no_flags re_spaces '' '' ?nc"
  assume "c \<in> set (searchQuery ents)"
  then have "c = CHR '' '' \<or> (\<exists>w \<in> set (take 3 (allTerms ents)). c \<in> set w)"
    using js_join_chars [of "'' ''" "take 3 (allTerms ents)"] by (auto simp: searchQuery_def)
  then have "c = CHR '' '' \<or> (\<exists>w \<in> set (allTerms ents). c \<in> set w)"
    by (auto dest: in_set_takeD)
  then have "c = CHR '' '' \<or> c \<in> set (js_trim ?col)"
    unfolding allTerms_def by (auto dest: js_split_chars)
  then have "c = CHR '' '' \<or> c \<in> set ?col"
    using js_trim_chars by blast
  then have "c = CHR '' '' \<or> c \<in> set ?nc"
    using replace_all_chars [of no_flags re_spaces "'' ''" ?nc] by auto
  moreover have "CHR '','' \<notin> set ?nc"
    by (simp add: replace_all_def replace_from_comma_free)
  moreover have "set ?nc \<subseteq> set ?low \<union> {CHR '' ''}"
    using replace_all_chars [of no_flags re_comma "'' ''" ?low] by simp
  moreover have "lower_char x = x" if "x \<in> set ?low" for x
    using that by (auto simp: toLowerCase_def lower_char_idem)
  moreover have "lower_char CHR '' '' = CHR '' ''"
    by (simp add: lower_char_def code_def)
  ultimately show ?thesis by auto
qed



subsection \<open>The shape of a turn of the hybrid variant\<close>

lemma extractEntities_Some: "extractEntities reply = Some ents \<Longrightarrow> ents \<noteq> []"
  by (auto simp: extractEntities_def Let_def split: fetch_reply.splits option.splits if_splits)

lemma hybrid_rejected:
  "\<not> passes_checks ep \<Longrightarrow> before_agent_start e st ep = nothing st []"
  by (auto simp: passes_checks_def before_agent_start_def Let_def split: option.splits)

lemma hybrid_unavailable:
  "passes_checks (Some raw) \<Longrightarrow> extractEntities (ollama e (clean_prompt raw)) = None \<Longrightarrow>
   before_agent_start e st (Some raw)
     = \<lparr>returned = Some disabled_hint, state_after = st, calls = [Extract (clean_prompt raw)]\<rparr>"
  by (simp add: passes_checks_def before_agent_start_def Let_def)

lemma hybrid_short:
  "passes_checks (Some raw) \<Longrightarrow> extractEntities (ollama e (clean_prompt raw)) = Some ents \<Longrightarrow>
   length (searchQuery ents) < 2 \<Longrightarrow>
   before_agent_start e st (Some raw) = nothing st [Extract (clean_prompt raw)]"
  by (frule extractEntities_Some) (simp add: passes_checks_def before_agent_start_def Let_def)

lemma hybrid_search:
  "passes_checks (Some raw) \<Longrightarrow> extractEntities (ollama e (clean_prompt raw)) = Some ents \<Longrightarrow>
   2 \<le> length (searchQuery ents) \<Longrightarrow>
   before_agent_start e st (Some raw)
     = (search_stage e st (clean_prompt raw) ents (searchQuery ents))
         \<lparr>calls := Extract (clean_prompt raw)
                    # calls (search_stage e st (clean_prompt raw) ents (searchQuery ents))\<rparr>"
  by (frule extractEntities_Some) (simp add: passes_checks_def before_agent_start_def Let_def)

lemma hybrid_reaches_search:
  assumes "list_ex is_qmd (calls (before_agent_start e st (Some raw)))"
  obtains ents where "passes_checks (Some raw)"
    and "extractEntities (ollama e (clean_prompt raw)) = Some ents"
    and "2 \<le> length (searchQuery ents)"
proof (cases "passes_checks (Some raw)")
  case False
  with assms show ?thesis by (simp add: hybrid_rejected nothing_def)
next
  case True
  show ?thesis
  proof (cases "extractEntities (ollama e (clean_prompt raw))")
    case None
    with True assms show ?thesis by (simp add: hybrid_unavailable)
  next
    case (Some ents)
    show ?thesis
    proof (cases "length (searchQuery ents) < 2")
      case True
      with \<open>passes_checks (Some raw)\<close> Some assms show ?thesis
        by (simp add: hybrid_short nothing_def)
    next
      case False
      with \<open>passes_checks (Some raw)\<close> Some that show ?thesis by simp
    qed
  qed
qed

lemma fallback_logs:
  "length (filter is_log (calls (gemini_fallback e st p ents q)))
     = (if returned (gemini_fallback e st p ents q) = None then 0 else 1)"
  by (simp add: gemini_fallback_def nothing_def Let_def split: tool_reply.splits option.splits)

lemma fallback_executes:
  "filter is_execute (calls (gemini_fallback e st p ents q))
     = (if memoryTool st \<or> createMemorySearchTool e = Created
        then [Execute ''preflight-fallback'' (slice0 200 p) 5 minScore] else [])"
  by (cases "createMemorySearchTool e") (simp_all add: gemini_fallback_def nothing_def Let_def split: tool_reply.splits option.splits)

lemma fallback_returned_executes:
  "returned (gemini_fallback e st p ents q) \<noteq> None \<Longrightarrow>
   list_ex is_execute (calls (gemini_fallback e st p ents q))"
  by (simp add: gemini_fallback_def nothing_def Let_def split: tool_reply.splits option.splits if_splits)

lemma logSearch_memoryTool: "memoryTool (logSearch e st entry) = memoryTool st"
  by (simp add: logSearch_def)

lemma search_stage_logs:
  "length (filter is_log (calls (search_stage e st p ents q)))
     = (if list_ex is_execute (calls (search_stage e st p ents q))
           \<and> returned (search_stage e st p ents q) \<noteq> None then 2 else 1)"
  using fallback_returned_executes [of e "logSearch e st \<lparr>log_prompt = slice0 200 p,
                   log_entities = Some ents,
                   log_searchQuery = q,
                   log_results = []\<rparr>" p ents q]
  by (auto simp add: search_stage_def Let_def fallback_logs list_ex_iff)

lemma search_stage_executes:
  "filter is_execute (calls (search_stage e st p ents q))
     = (if searchWithQmd (parseFloat e) (qmd e q 5) = []
           \<and> (memoryTool st \<or> createMemorySearchTool e = Created)
        then [Execute ''preflight-fallback'' (slice0 200 p) 5 minScore] else [])"
  by (simp add: search_stage_def Let_def fallback_executes logSearch_memoryTool filter_map comp_def)


subsection \<open>The shape of a turn of the memory-tool variant\<close>

lemma fallback_no_qmd: "filter is_qmd (calls (gemini_fallback e st p ents q)) = []"
  by (simp add: gemini_fallback_def nothing_def Let_def split: tool_reply.splits option.splits)

lemma search_stage_qmd: "filter is_qmd (calls (search_stage e st p ents q)) = [QmdSearch q 5]"
  by (simp add: search_stage_def Let_def fallback_no_qmd filter_map comp_def)

lemma mt_rejected:
  "\<not> passes_checks ep \<Longrightarrow>
   returned (before_agent_start_mt e st ep) = None
   \<and> state_after (before_agent_start_mt e st ep) = st
   \<and> filter is_execute (calls (before_agent_start_mt e st ep)) = []"
  by (auto simp: passes_checks_def before_agent_start_mt_def nothing_def Let_def split: option.splits)

lemma mt_short:
  assumes "passes_checks (Some raw)"
    and "length (searchQuery_mt (extractEntities_mt (ollama e (clean_prompt raw))) (clean_prompt raw)) < 3"
  shows "returned (before_agent_start_mt e st (Some raw)) = None
   \<and> log_file (state_after (before_agent_start_mt e st (Some raw))) = log_file st
   \<and> calls (before_agent_start_mt e st (Some raw))
       = (if memoryTool st then [Extract (clean_prompt raw)]
          else [Extract (clean_prompt raw), CreateTool])"
  using assms
  by (simp add: passes_checks_def before_agent_start_mt_def nothing_def Let_def)

lemma mt_executes:
  assumes "passes_checks (Some raw)"
  shows "filter is_execute (calls (before_agent_start_mt e st (Some raw)))
     = (if (memoryTool st \<or> createMemorySearchTool e = Created)
           \<and> 3 \<le> length (searchQuery_mt (extractEntities_mt (ollama e (clean_prompt raw))) (clean_prompt raw))
        then [Execute ''preflight''
                (searchQuery_mt (extractEntities_mt (ollama e (clean_prompt raw))) (clean_prompt raw))
                5 minScore]
        else [])"
  using assms
  by (cases "createMemorySearchTool e")
     (simp_all add: passes_checks_def before_agent_start_mt_def nothing_def Let_def
        split: tool_reply.splits option.splits)

lemma mt_no_log:
  "filter is_log (calls (before_agent_start_mt e st ep)) = []
   \<and> log_file (state_after (before_agent_start_mt e st ep)) = log_file st"
  by (cases "createMemorySearchTool e")
     (simp_all add: before_agent_start_mt_def nothing_def Let_def
        split: option.splits tool_reply.splits)

lemma demo_passes: "passes_checks (Some ''Toronto trip?'')"
  by code_simp

lemma demo_clean: "clean_prompt ''Toronto trip?'' = ''Toronto trip?''"
  by code_simp

lemma query_toronto: "searchQuery ''Toronto, trip'' = ''toronto trip''"
  by code_simp

lemma query_mt_toronto: "searchQuery_mt (Some ''Toronto, trip'') p = ''toronto  trip''"
proof -
  have "replace_all no_flags re_comma '' '' (toLowerCase ''Toronto, trip'') = ''toronto  trip''"
    by code_simp
  then show ?thesis by (simp add: searchQuery_mt_def)
qed

lemma extract_toronto:
  "extractEntities (Body (Some ''Toronto, trip'')) = Some ''Toronto, trip''"
  "extractEntities_mt (Body (Some ''Toronto, trip'')) = Some ''Toronto, trip''"
  by code_simp+

lemma fallback_log_file:
  "(\<And>entry. appendFile e entry) \<Longrightarrow>
   length (log_file (state_after (gemini_fallback e st p ents q)))
     = length (log_file st) + length (filter is_log (calls (gemini_fallback e st p ents q)))"
  by (simp add: gemini_fallback_def nothing_def logSearch_def Let_def
        split: tool_reply.splits option.splits)

lemma search_stage_log_file:
  "(\<And>entry. appendFile e entry) \<Longrightarrow>
   length (log_file (state_after (search_stage e st p ents q)))
     = length (log_file st) + length (filter is_log (calls (search_stage e st p ents q)))"
  by (simp add: search_stage_def Let_def fallback_log_file logSearch_def filter_map comp_def)

text \<open>Three turns of the hybrid variant on the prompt \<open>Toronto trip?\<close>, evaluated.\<close>

lemma demo_hit_run:
  "before_agent_start demo_env demo_state (Some ''Toronto trip?'')
     = \<lparr>returned = Some (hint_block
                          [hint_line ''memory/notes/trip.md'' ''0.92'' ''Flights booked'']),
        state_after =
          \<lparr>memoryTool = False,
           log_file = [\<lparr>log_prompt = ''Toronto trip?'', log_entities = Some ''Toronto, trip'',
                        log_searchQuery = ''toronto trip'',
                        log_results = [(''memory/notes/trip.md'', ''0.92'')]\<rparr>]\<rparr>,
        calls = [Extract ''Toronto trip?'', QmdSearch ''toronto trip'' 5,
                 LogSearch \<lparr>log_prompt = ''Toronto trip?'',
                            log_entities = Some ''Toronto, trip'',
                            log_searchQuery = ''toronto trip'',
                            log_results = [(''memory/notes/trip.md'', ''0.92'')]\<rparr>,
                 Head ''memory/notes/trip.md'']\<rparr>"
  by code_simp

lemma demo_fallback_run:
  "before_agent_start (demo_env\<lparr>qmd := \<lambda>query n. Stdout []\<rparr>) demo_state
       (Some ''Toronto trip?'')
     = \<lparr>returned = Some (hint_block [hint_line ''memory/a.md'' ''0.50'' ''Toronto in May'']),
        state_after =
          \<lparr>memoryTool = True,
           log_file = [\<lparr>log_prompt = ''Toronto trip?'', log_entities = Some ''Toronto, trip'',
                        log_searchQuery = ''toronto trip'', log_results = []\<rparr>,
                       \<lparr>log_prompt = ''Toronto trip?'', log_entities = Some ''Toronto, trip'',
                        log_searchQuery = ''toronto trip [GEMINI FALLBACK]'',
                        log_results = [(''memory/a.md'', ''0.50'')]\<rparr>]\<rparr>,
        calls = [Extract ''Toronto trip?'', QmdSearch ''toronto trip'' 5,
                 LogSearch \<lparr>log_prompt = ''Toronto trip?'',
                            log_entities = Some ''Toronto, trip'',
                            log_searchQuery = ''toronto trip'', log_results = []\<rparr>,
                 CreateTool,
                 Execute ''preflight-fallback'' ''Toronto trip?'' 5 minScore,
                 LogSearch \<lparr>log_prompt = ''Toronto trip?'',
                            log_entities = Some ''Toronto, trip'',
                            log_searchQuery = ''toronto trip [GEMINI FALLBACK]'',
                            log_results = [(''memory/a.md'', ''0.50'')]\<rparr>]\<rparr>"
  by code_simp

lemma demo_unconfigured_run:
  "before_agent_start
       (demo_env\<lparr>qmd := \<lambda>query n. Stdout [], createMemorySearchTool := CreateNull\<rparr>)
       demo_state (Some ''Toronto trip?'')
     = \<lparr>returned = None,
        state_after =
          \<lparr>memoryTool = False,
           log_file = [\<lparr>log_prompt = ''Toronto trip?'', log_entities = Some ''Toronto, trip'',
                        log_searchQuery = ''toronto trip'', log_results = []\<rparr>]\<rparr>,
        calls = [Extract ''Toronto trip?'', QmdSearch ''toronto trip'' 5,
                 LogSearch \<lparr>log_prompt = ''Toronto trip?'',
                            log_entities = Some ''Toronto, trip'',
                            log_searchQuery = ''toronto trip'', log_results = []\<rparr>,
                 CreateTool]\<rparr>"
  by code_simp

subsection \<open>Audit records\<close>

text \<open>
  Claim C1, as the code has it.  A turn of the hybrid variant that reaches the keyword
  search calls \<open>logSearch\<close> once right after that search, and a second time exactly when
  the semantic fallback was executed and returned hints (that entry carries the query
  marked \<open>[GEMINI FALLBACK]\<close>).  So the turn logs one or two records, never none; when
  every append succeeds the log file grows by as many records.  The memory-tool variant
  has no logger: it writes no record on any turn.
\<close>

theorem audit_records_per_turn:
  assumes "list_ex is_qmd (calls (before_agent_start e st (Some raw)))"
  shows "length (filter is_log (calls (before_agent_start e st (Some raw))))
           = (if list_ex is_execute (calls (before_agent_start e st (Some raw)))
                 \<and> returned (before_agent_start e st (Some raw)) \<noteq> None
              then 2 else 1)
         \<and> ((\<forall>entry. appendFile e entry) \<longrightarrow>
              length (log_file (state_after (before_agent_start e st (Some raw))))
                = length (log_file st)
                  + length (filter is_log (calls (before_agent_start e st (Some raw)))))
         \<and> filter is_log (calls (before_agent_start_mt e st (Some raw))) = []
         \<and> log_file (state_after (before_agent_start_mt e st (Some raw))) = log_file st"
proof -
  from assms obtain ents where p: "passes_checks (Some raw)"
    and x: "extractEntities (ollama e (clean_prompt raw)) = Some ents"
    and q: "2 \<le> length (searchQuery ents)"
    by (rule hybrid_reaches_search)
  have count: "length (filter is_log (calls (before_agent_start e st (Some raw))))
           = (if list_ex is_execute (calls (before_agent_start e st (Some raw)))
                 \<and> returned (before_agent_start e st (Some raw)) \<noteq> None
              then 2 else 1)"
    using search_stage_logs [of e st "clean_prompt raw" ents "searchQuery ents"]
    by (simp add: hybrid_search [OF p x q])
  have grows: "length (log_file (state_after (before_agent_start e st (Some raw))))
                = length (log_file st)
                  + length (filter is_log (calls (before_agent_start e st (Some raw))))"
    if "\<forall>entry. appendFile e entry"
    using that search_stage_log_file [of e st "clean_prompt raw" ents "searchQuery ents"]
    by (simp add: hybrid_search [OF p x q])
  from count grows mt_no_log [of e st "Some raw"] show ?thesis by blast
qed

text \<open>A keyword hit: one record.\<close>

theorem audit_records_per_turn_witness:
  "list_ex is_qmd (calls (before_agent_start demo_env demo_state (Some ''Toronto trip?'')))
   \<and> length (filter is_log
        (calls (before_agent_start demo_env demo_state (Some ''Toronto trip?'')))) = 1
   \<and> length (log_file (state_after
        (before_agent_start demo_env demo_state (Some ''Toronto trip?'')))) = 1"
proof -
  have r: "list_ex is_qmd
             (calls (before_agent_start demo_env demo_state (Some ''Toronto trip?'')))"
    by (simp add: demo_hit_run)
  have a: "\<forall>entry. appendFile demo_env entry"
    by (simp add: demo_env_def)
  have x: "\<not> list_ex is_execute
             (calls (before_agent_start demo_env demo_state (Some ''Toronto trip?'')))"
    by (simp add: demo_hit_run)
  have l: "length (log_file demo_state) = 0"
    by (simp add: demo_state_def)
  from audit_records_per_turn [OF r] a x r l show ?thesis
    by simp
qed

text \<open>
  The claim as stated fails: no keyword hit, the fallback returns a result, and the turn
  has logged two records.
\<close>

theorem two_audit_records_counterexample:
  "list_ex is_qmd
     (calls (before_agent_start (demo_env\<lparr>qmd := \<lambda>query n. Stdout []\<rparr>) demo_state
               (Some ''Toronto trip?'')))
   \<and> length (filter is_log
       (calls (before_agent_start (demo_env\<lparr>qmd := \<lambda>query n. Stdout []\<rparr>) demo_state
                 (Some ''Toronto trip?'')))) = 2
   \<and> length (log_file (state_after
       (before_agent_start (demo_env\<lparr>qmd := \<lambda>query n. Stdout []\<rparr>) demo_state
          (Some ''Toronto trip?'')))) = 2"
  by (simp add: demo_fallback_run)

subsection \<open>Rejected turns\<close>

lemma hybrid_rejected_no_calls:
  "\<not> passes_checks ep \<Longrightarrow>
   returned (before_agent_start e st ep) = None \<and> calls (before_agent_start e st ep) = []"
  by (simp add: hybrid_rejected nothing_def)

lemma mt_rejected_calls_extractor:
  assumes "rawPrompt \<noteq> []" and "10 \<le> length rawPrompt"
    and "\<not> passes_checks (Some rawPrompt)"
  shows "calls (before_agent_start_mt e st (Some rawPrompt)) = [Extract (clean_prompt rawPrompt)]"
  using assms
  by (auto simp: passes_checks_def before_agent_start_mt_def nothing_def Let_def)

text \<open>
  Claim C2.  In the hybrid variant a rejected turn makes no call at all
  (\<open>hybrid_rejected_no_calls\<close>), and in the memory-tool variant it returns no hint and
  executes no search (\<open>mt_rejected\<close>).  But the memory-tool variant calls the extractor
  before its checks of the cleaned prompt, so every turn that those checks reject has
  called it (\<open>mt_rejected_calls_extractor\<close>): the slash command \<open>/status please\<close> is
  rejected, and the extractor has been called on it.
\<close>

theorem slash_command_extractor_call:
  "\<not> passes_checks (Some ''/status please'')
   \<and> calls (before_agent_start_mt e st (Some ''/status please'')) = [Extract ''/status please'']
   \<and> calls (before_agent_start e st (Some ''/status please'')) = []"
proof -
  have c: "clean_prompt ''/status please'' = ''/status please''"
    by code_simp
  show ?thesis
    by (simp add: passes_checks_def before_agent_start_mt_def before_agent_start_def
          nothing_def c startsWith_def Let_def)
qed

subsection \<open>The semantic fallback\<close>

text \<open>
  Claim C3, as the code has it.  In a turn that reaches the keyword search, the memory
  tool is executed exactly when the keyword search returned no hit and a tool handle is
  at hand (kept from an earlier turn, or created now); it is executed once, under the id
  \<open>preflight-fallback\<close>, with the first 200 characters of the cleaned prompt as its
  query, 5 as \<open>maxResults\<close> and 0.3 as \<open>minScore\<close>.  With one hit or more it is
  never executed.
\<close>

theorem semantic_fallback_invocation:
  assumes "list_ex is_qmd (calls (before_agent_start e st (Some raw)))"
  shows "\<exists>ents. extractEntities (ollama e (clean_prompt raw)) = Some ents
           \<and> filter is_execute (calls (before_agent_start e st (Some raw)))
              = (if searchWithQmd (parseFloat e) (qmd e (searchQuery ents) 5) = []
                    \<and> (memoryTool st \<or> createMemorySearchTool e = Created)
                 then [Execute ''preflight-fallback'' (slice0 200 (clean_prompt raw)) 5 minScore]
                 else [])"
proof -
  from assms obtain ents where p: "passes_checks (Some raw)"
    and x: "extractEntities (ollama e (clean_prompt raw)) = Some ents"
    and q: "2 \<le> length (searchQuery ents)"
    by (rule hybrid_reaches_search)
  have "filter is_execute (calls (before_agent_start e st (Some raw)))
          = filter is_execute (calls (search_stage e st (clean_prompt raw) ents (searchQuery ents)))"
    by (simp add: hybrid_search [OF p x q])
  with x show ?thesis
    by (simp add: search_stage_executes)
qed

text \<open>No keyword hit and a tool that can be created: the tool is executed on the prompt.\<close>

theorem semantic_fallback_invocation_witness:
  "list_ex is_qmd
     (calls (before_agent_start (demo_env\<lparr>qmd := \<lambda>query n. Stdout []\<rparr>) demo_state
               (Some ''Toronto trip?'')))
   \<and> (\<exists>ents. extractEntities
                (ollama (demo_env\<lparr>qmd := \<lambda>query n. Stdout []\<rparr>) (clean_prompt ''Toronto trip?''))
              = Some ents
         \<and> filter is_execute
             (calls (before_agent_start (demo_env\<lparr>qmd := \<lambda>query n. Stdout []\<rparr>) demo_state
                       (Some ''Toronto trip?'')))
           = (if searchWithQmd (parseFloat (demo_env\<lparr>qmd := \<lambda>query n. Stdout []\<rparr>))
                   (qmd (demo_env\<lparr>qmd := \<lambda>query n. Stdout []\<rparr>) (searchQuery ents) 5) = []
                 \<and> (memoryTool demo_state
                    \<or> createMemorySearchTool (demo_env\<lparr>qmd := \<lambda>query n. Stdout []\<rparr>) = Created)
              then [Execute ''preflight-fallback'' (slice0 200 (clean_prompt ''Toronto trip?'')) 5
                      minScore]
              else []))
   \<and> filter is_execute
        (calls (before_agent_start (demo_env\<lparr>qmd := \<lambda>query n. Stdout []\<rparr>) demo_state
                  (Some ''Toronto trip?'')))
      = [Execute ''preflight-fallback'' ''Toronto trip?'' 5 minScore]"
proof -
  have r: "list_ex is_qmd
     (calls (before_agent_start (demo_env\<lparr>qmd := \<lambda>query n. Stdout []\<rparr>) demo_state
               (Some ''Toronto trip?'')))"
    by (simp add: demo_fallback_run)
  have f: "filter is_execute
        (calls (before_agent_start (demo_env\<lparr>qmd := \<lambda>query n. Stdout []\<rparr>) demo_state
                  (Some ''Toronto trip?'')))
      = [Execute ''preflight-fallback'' ''Toronto trip?'' 5 minScore]"
    by (simp add: demo_fallback_run)
  from r semantic_fallback_invocation [OF r] f show ?thesis
    by blast
qed

text \<open>
  The claim as stated fails where the host has no memory search configured: the keyword
  search returns no hit and the tool is not executed.
\<close>

theorem fallback_not_configured_counterexample:
  "list_ex is_qmd
     (calls (before_agent_start
               (demo_env\<lparr>qmd := \<lambda>query n. Stdout [], createMemorySearchTool := CreateNull\<rparr>)
               demo_state (Some ''Toronto trip?'')))
   \<and> searchWithQmd (parseFloat demo_env) (Stdout []) = []
   \<and> \<not> list_ex is_execute
     (calls (before_agent_start
               (demo_env\<lparr>qmd := \<lambda>query n. Stdout [], createMemorySearchTool := CreateNull\<rparr>)
               demo_state (Some ''Toronto trip?'')))"
  by (simp add: demo_unconfigured_run searchWithQmd_def js_trim_def)

subsection \<open>The extractor is unavailable\<close>




subsection \<open>The query built from the extractor's answer\<close>

text \<open>
  Claim C5, as the code has it.  When the extractor answers \<open>Toronto, trip\<close>, the hybrid
  variant searches the keyword backend for \<open>toronto trip\<close>: lower-cased, commas replaced,
  white space collapsed, the first three terms joined by single spaces.  Whatever the
  answer, its query has at most three terms, no comma and no upper-case letter.  The
  memory-tool variant has no keyword backend, no collapsing and no cap: it lower-cases the
  answer and replaces each comma by a space, so its memory tool is executed with
  \<open>toronto  trip\<close> (two spaces).
\<close>

theorem toronto_trip_query:
  assumes "passes_checks (Some raw)"
  shows "(extractEntities (ollama e (clean_prompt raw)) = Some ''Toronto, trip''
            \<longrightarrow> filter is_qmd (calls (before_agent_start e st (Some raw)))
                  = [QmdSearch ''toronto trip'' 5])
       \<and> (extractEntities_mt (ollama e (clean_prompt raw)) = Some ''Toronto, trip''
            \<and> (memoryTool st \<or> createMemorySearchTool e = Created)
            \<longrightarrow> filter is_execute (calls (before_agent_start_mt e st (Some raw)))
                  = [Execute ''preflight'' ''toronto  trip'' 5 minScore])
       \<and> searchQuery ''Toronto, trip, flights, May'' = ''toronto trip flights''
       \<and> length (js_split CHR '' '' (searchQuery ents)) \<le> 3
       \<and> CHR '','' \<notin> set (searchQuery ents)
       \<and> list_all (\<lambda>c. lower_char c = c) (searchQuery ents)"
proof (intro conjI impI)
  assume x: "extractEntities (ollama e (clean_prompt raw)) = Some ''Toronto, trip''"
  have "2 \<le> length (searchQuery ''Toronto, trip'')"
    by (simp add: query_toronto)
  from hybrid_search [OF assms x this]
  show "filter is_qmd (calls (before_agent_start e st (Some raw))) = [QmdSearch ''toronto trip'' 5]"
    by (simp add: search_stage_qmd query_toronto)
next
  assume "extractEntities_mt (ollama e (clean_prompt raw)) = Some ''Toronto, trip''
            \<and> (memoryTool st \<or> createMemorySearchTool e = Created)"
  then show "filter is_execute (calls (before_agent_start_mt e st (Some raw)))
                  = [Execute ''preflight'' ''toronto  trip'' 5 minScore]"
    by (simp add: mt_executes [OF assms] query_mt_toronto)
next
  show "searchQuery ''Toronto, trip, flights, May'' = ''toronto trip flights''"
    by code_simp
next
  show "length (js_split CHR '' '' (searchQuery ents)) \<le> 3"
    by (rule searchQuery_terms)
next
  show "CHR '','' \<notin> set (searchQuery ents)"
    using searchQuery_chars [of "CHR '',''" ents] by blast
next
  show "list_all (\<lambda>c. lower_char c = c) (searchQuery ents)"
    using searchQuery_chars [of _ ents] by (auto simp: list_all_iff)
qed


theorem toronto_trip_query_witness:
  "filter is_qmd (calls (before_agent_start demo_env demo_state (Some ''Toronto trip?'')))
     = [QmdSearch ''toronto trip'' 5]
   \<and> filter is_execute (calls (before_agent_start_mt demo_env demo_state (Some ''Toronto trip?'')))
     = [Execute ''preflight'' ''toronto  trip'' 5 minScore]"
  using toronto_trip_query [OF demo_passes, of demo_env demo_state]
  by (simp add: demo_env_def extract_toronto)


text \<open>
  The claim as stated fails for the memory-tool variant: its query for the answer
  \<open>Toronto, trip\<close> is not \<open>toronto trip\<close>.
\<close>

theorem memory_tool_query_counterexample:
  "extractEntities_mt (ollama demo_env (clean_prompt ''Toronto trip?'')) = Some ''Toronto, trip''
   \<and> filter is_execute (calls (before_agent_start_mt demo_env demo_state (Some ''Toronto trip?'')))
       = [Execute ''preflight'' ''toronto  trip'' 5 minScore]
   \<and> ''toronto  trip'' \<noteq> ''toronto trip''"
  by (simp add: mt_executes [OF demo_passes] demo_env_def extract_toronto query_mt_toronto)

subsection \<open>A query that is too short\<close>

text \<open>
  Claim C10.  A turn that passes the checks and whose query is shorter than 2 characters
  (hybrid variant) or 3 characters (memory-tool variant) returns \<open>undefined\<close>: the
  hybrid variant has called the extractor only, the memory-tool variant the extractor and,
  when it holds no tool yet, the tool's constructor; neither searches, and the log file is
  as before.
\<close>

theorem short_query_returns_silently:
  assumes "passes_checks (Some raw)"
  shows "(\<forall>ents. extractEntities (ollama e (clean_prompt raw)) = Some ents
                  \<and> length (searchQuery ents) < 2
            \<longrightarrow> before_agent_start e st (Some raw) = nothing st [Extract (clean_prompt raw)])
       \<and> (length (searchQuery_mt (extractEntities_mt (ollama e (clean_prompt raw)))
                    (clean_prompt raw)) < 3
            \<longrightarrow> returned (before_agent_start_mt e st (Some raw)) = None
                \<and> log_file (state_after (before_agent_start_mt e st (Some raw))) = log_file st
                \<and> calls (before_agent_start_mt e st (Some raw))
                    = (if memoryTool st then [Extract (clean_prompt raw)]
                       else [Extract (clean_prompt raw), CreateTool]))"
  using assms mt_short [of raw e st] by (simp add: hybrid_short)

theorem short_query_returns_silently_witness:
  "before_agent_start (demo_env\<lparr>ollama := \<lambda>query. Body (Some ''x'')\<rparr>) demo_state (Some ''Toronto trip?'')
     = nothing demo_state [Extract ''Toronto trip?'']
   \<and> returned (before_agent_start_mt (demo_env\<lparr>ollama := \<lambda>query. Body (Some ''x'')\<rparr>) demo_state
        (Some ''Toronto trip?'')) = None
   \<and> calls (before_agent_start_mt (demo_env\<lparr>ollama := \<lambda>query. Body (Some ''x'')\<rparr>) demo_state
        (Some ''Toronto trip?'')) = [Extract ''Toronto trip?'', CreateTool]"
proof -
  have a: "extractEntities (Body (Some ''x'')) = Some ''x''"
    by code_simp
  have b: "length (searchQuery ''x'') < 2"
    by code_simp
  have c: "length (searchQuery_mt (extractEntities_mt (Body (Some ''x''))) ''Toronto trip?'') < 3"
    by code_simp
  from short_query_returns_silently [OF demo_passes, of "demo_env\<lparr>ollama := \<lambda>query. Body (Some ''x'')\<rparr>" demo_state]
  show ?thesis
    using a b c by (simp add: demo_clean demo_env_def demo_state_def)
qed

subsection \<open>Acknowledgements and greetings\<close>

text \<open>
  Claim C6, as the code has it.  When the cleaned prompt is one of the sixteen fixed
  words in any letter case, alone or followed by one full stop, both variants return no
  hint and execute no search, and the hybrid variant makes no call at all.  The patterns
  end in \<open>\.?$\<close>: a full stop is the only trailing punctuation they accept.
\<close>

theorem acknowledgement_rejected:
  assumes "w \<in> set (ack_words @ greeting_words)"
    and "map upper_char v = map upper_char w"
    and "clean_prompt raw = v \<or> clean_prompt raw = v @ ''.''"
  shows "returned (before_agent_start e st (Some raw)) = None
       \<and> calls (before_agent_start e st (Some raw)) = []
       \<and> returned (before_agent_start_mt e st (Some raw)) = None
       \<and> filter is_execute (calls (before_agent_start_mt e st (Some raw))) = []"
proof -
  from assms(3) obtain rest where r: "rest = [] \<or> rest = ''.''"
    and c: "clean_prompt raw = v @ rest"
    by auto
  from assms(1,2) r have "matches_skip (v @ rest)"
    by (rule matches_skip_variant)
  with c have "\<not> passes_checks (Some raw)"
    by (simp add: passes_checks_def)
  then show ?thesis
    using hybrid_rejected_no_calls [of "Some raw" e st] mt_rejected [of "Some raw" e st]
    by simp
qed

theorem acknowledgement_rejected_witness:
  "returned (before_agent_start demo_env demo_state (Some ''Thank You.'')) = None
   \<and> calls (before_agent_start demo_env demo_state (Some ''Thank You.'')) = []
   \<and> returned (before_agent_start_mt demo_env demo_state (Some ''Thank You.'')) = None
   \<and> filter is_execute (calls (before_agent_start_mt demo_env demo_state (Some ''Thank You.''))) = []"
proof -
  have w: "''thank you'' \<in> set (ack_words @ greeting_words)"
    by (simp add: ack_words_def)
  have v: "map upper_char ''Thank You'' = map upper_char ''thank you''"
    by code_simp
  have "clean_prompt ''Thank You.'' = ''Thank You.''"
    by code_simp
  then have c: "clean_prompt ''Thank You.'' = ''Thank You''
                \<or> clean_prompt ''Thank You.'' = ''Thank You'' @ ''.''"
    by simp
  from acknowledgement_rejected [OF w v c] show ?thesis .
qed

text \<open>
  The claim as stated fails for other punctuation: \<open>thank you!\<close> is not rejected, and
  the turn returns a hint.
\<close>

lemma demo_thanks_run:
  "returned (before_agent_start demo_env demo_state (Some ''thank you!''))
     = Some (hint_block [hint_line ''memory/notes/trip.md'' ''0.92'' ''Flights booked''])"
  by code_simp

theorem exclamation_mark_counterexample:
  "''thank you'' \<in> set ack_words
   \<and> clean_prompt ''thank you!'' = ''thank you'' @ ''!''
   \<and> returned (before_agent_start demo_env demo_state (Some ''thank you!'')) \<noteq> None"
proof -
  have "clean_prompt ''thank you!'' = ''thank you!''"
    by code_simp
  then show ?thesis
    by (simp add: demo_thanks_run ack_words_def)
qed

subsection \<open>Cleaning twice\<close>







subsection \<open>Parsing the keyword backend's output\<close>

lemma parse_lines_acc:
  "parse_lines pf ls acc =
     acc @ map (parse_line pf) (filter (\<lambda>parts. 3 \<le> length parts) (map (js_split CHR '','') ls))"
  by (induction ls arbitrary: acc) (simp_all add: Let_def)

text \<open>
  Claim C8.  The output line \<open>#a1,0.92,qmd://memory/notes/trip.md\<close> is parsed into one hit
  whose score is the number \<open>parseFloat\<close> reads from the field \<open>0.92\<close> and whose path is
  \<open>memory/notes/trip.md\<close>.  For any output, the hits are the parsed lines of three or more
  fields, in the order of the lines: the loop neither reorders nor re-ranks.
\<close>

theorem searchWithQmd_line_order:
  "searchWithQmd pf (Stdout ''#a1,0.92,qmd://memory/notes/trip.md'')
     = [\<lparr>hash = ''#a1'', score = pf ''0.92'', path = ''memory/notes/trip.md''\<rparr>]
   \<and> searchWithQmd pf (Stdout stdout)
     = (if js_trim stdout = [] then []
        else map (parse_line pf)
               (filter (\<lambda>parts. 3 \<le> length parts)
                  (map (js_split CHR '','') (js_split newline (js_trim stdout)))))"
proof -
  let ?line = "''#a1,0.92,qmd://memory/notes/trip.md''"
  have a: "js_trim ?line = ?line"
    by code_simp
  have b: "js_split newline ?line = [?line]"
    by code_simp
  have c: "js_split CHR '','' ?line = [''#a1'', ''0.92'', ''qmd://memory/notes/trip.md'']"
    by code_simp
  have d: "replace_first no_flags re_qmd_uri ''memory/'' ''qmd://memory/notes/trip.md''
             = ''memory/notes/trip.md''"
    by code_simp
  have one: "searchWithQmd pf (Stdout ?line)
               = [\<lparr>hash = ''#a1'', score = pf ''0.92'', path = ''memory/notes/trip.md''\<rparr>]"
    by (simp add: searchWithQmd_def parse_line_def a b c d del: js_split.simps)
  have all: "searchWithQmd pf (Stdout stdout)
     = (if js_trim stdout = [] then []
        else map (parse_line pf)
               (filter (\<lambda>parts. 3 \<le> length parts)
                  (map (js_split CHR '','') (js_split newline (js_trim stdout)))))"
    by (simp add: searchWithQmd_def parse_lines_acc)
  from one all show ?thesis by blast
qed

text \<open>Two hits and a malformed line between them: the hits keep the order of the lines.\<close>

theorem searchWithQmd_line_order_witness:
  "searchWithQmd (\<lambda>field. field)
       (Stdout (''#b2,0.50,qmd://memory/b.md'' @ [newline] @ ''no fields'' @ [newline]
                @ ''#a1,0.92,qmd://memory/notes/trip.md'' @ [newline]))
     = [\<lparr>hash = ''#b2'', score = ''0.50'', path = ''memory/b.md''\<rparr>,
        \<lparr>hash = ''#a1'', score = ''0.92'', path = ''memory/notes/trip.md''\<rparr>]"
proof -
  let ?out = "''#b2,0.50,qmd://memory/b.md'' @ [newline] @ ''no fields'' @ [newline]
                @ ''#a1,0.92,qmd://memory/notes/trip.md'' @ [newline]"
  have "(if js_trim ?out = [] then []
        else map (parse_line (\<lambda>field. field))
               (filter (\<lambda>parts. 3 \<le> length parts)
                  (map (js_split CHR '','') (js_split newline (js_trim ?out)))))
     = [\<lparr>hash = ''#b2'', score = ''0.50'', path = ''memory/b.md''\<rparr>,
        \<lparr>hash = ''#a1'', score = ''0.92'', path = ''memory/notes/trip.md''\<rparr>]"
    by code_simp
  with searchWithQmd_line_order [of "\<lambda>field. field" ?out] show ?thesis
    by simp
qed

subsection \<open>The preview\<close>



end
